theory Spec2Isabelle
  imports Main
begin

section \<open>The store of cmd/db.go\<close>

text \<open>
  The program keeps three tables in a relational store: \<open>files\<close>, \<open>services\<close> and
  \<open>nginx_config_files\<close>. A table is modelled as the list of its rows in insertion
  order, a row as a record with the columns of the \<^verbatim>\<open>CREATE TABLE\<close> statement,
  a nullable column as an \<open>option\<close>. \<^verbatim>\<open>DATETIME\<close> values are kept abstract as integers,
  row identities are unbounded integers (the engine's behaviour once the largest
  identity is \<open>2^63 - 1\<close> is outside the model).
\<close>

type_synonym time = int

datatype error = ReadError | DecodeError string | ConstraintViolation

record File =
  File_ID :: int
  File_Path :: string
  File_Name :: string
  File_Content :: string
  File_IsConfigured :: bool
  File_LastModified :: time

record Service =
  Service_ID :: int
  Service_FileID :: "int option"
  Service_Name :: string
  Service_Content :: string
  Service_State :: string
  Service_LastModified :: time

record NginxConfigFile =
  NginxConfigFile_ID :: int
  NginxConfigFile_ServiceID :: "int option"
  NginxConfigFile_Type :: string
  NginxConfigFile_Path :: string
  NginxConfigFile_LastModified :: time

record db =
  files :: "File list"
  services :: "Service list"
  nginx_config_files :: "NginxConfigFile list"

text \<open>The scanned file handed to \<open>addFile\<close> and \<open>updateFile\<close>: its path, and the
  base name and modification time that its \<^verbatim>\<open>os.FileInfo\<close> reports.\<close>

record FilePathAndInfo =
  fpi_Path :: string
  fpi_Name :: string
  fpi_ModTime :: time

text \<open>The file system, as far as \<open>getFileContent\<close> sees it: the bytes of every
  readable path.\<close>

type_synonym filesystem = "string \<Rightarrow> string option"

subsection \<open>Constants\<close>

definition stateNotConfigured :: string where
  "stateNotConfigured = ''not configured''"

definition stateToConfigureHttps :: string where
  "stateToConfigureHttps = ''to configure https''"

definition stateToDisableHttp :: string where
  "stateToDisableHttp = ''to disable http''"

definition stateConfigured :: string where
  "stateConfigured = ''configured''"

subsection \<open>The schema of createTables\<close>

text \<open>
  \<open>createTables\<close> declares two foreign keys, each with the action the engine takes on
  the referencing rows when the referenced row is deleted:
  \<^verbatim>\<open>services.file_id REFERENCES files (id) ON DELETE CASCADE\<close> and
  \<^verbatim>\<open>nginx_config_files.service_id REFERENCES services (id) ON DELETE SET NULL\<close>.
  \<open>files.path\<close> and \<open>nginx_config_files.path\<close> are \<^verbatim>\<open>UNIQUE\<close>, every \<open>id\<close> is an
  \<^verbatim>\<open>INTEGER PRIMARY KEY\<close>. The declarations are given their SQL meaning, with
  foreign keys enforced.
\<close>

datatype ref_action = Cascade | SetNull

definition services_file_id_on_delete :: ref_action where
  "services_file_id_on_delete = Cascade"

definition nginx_config_files_service_id_on_delete :: ref_action where
  "nginx_config_files_service_id_on_delete = SetNull"

subsection \<open>Row operations\<close>

text \<open>An \<^verbatim>\<open>INTEGER PRIMARY KEY\<close> that is not supplied becomes one more than the
  largest identity in the table, and 1 in an empty table.\<close>

definition next_rowid :: "int list \<Rightarrow> int" where
  "next_rowid ids = (case ids of [] \<Rightarrow> 1 | i # rest \<Rightarrow> fold max rest i + 1)"

text \<open>The generated insert leaves out an \<open>ID\<close> that is zero, so that the engine
  assigns one; a non-zero \<open>ID\<close> is inserted as it is and must be new.\<close>

definition assign_rowid :: "int list \<Rightarrow> int \<Rightarrow> error + int" where
  "assign_rowid ids given =
     (if given = 0 then Inr (next_rowid ids)
      else if given \<in> set ids then Inl ConstraintViolation
      else Inr given)"

text \<open>
  The generated \<open>models\<close> package (\<open>File.Insert\<close>, \<open>File.Update\<close>,
  \<open>File.AddServices\<close>) is not part of the source. Each of its methods issues one
  single-row statement, which the engine checks against the constraints that
  \<open>createTables\<close> declares; a violation aborts the statement with no partial write.
\<close>

text \<open>Modelled from the spec: \<open>File.Insert\<close> of the absent \<open>models\<close> package
  (\<open>AddFile\<close> "fails with ConstraintViolation if path already exists"): one
  \<^verbatim>\<open>INSERT\<close> into \<open>files\<close>, under \<^verbatim>\<open>path TEXT NOT NULL UNIQUE\<close>.\<close>

definition File_Insert :: "db \<Rightarrow> File \<Rightarrow> error + db" where
  "File_Insert d f =
     (case assign_rowid (map File_ID (files d)) (File_ID f) of
        Inl e \<Rightarrow> Inl e
      | Inr i \<Rightarrow>
          if File_Path f \<in> set (map File_Path (files d)) then Inl ConstraintViolation
          else Inr (d\<lparr>files := files d @ [f\<lparr>File_ID := i\<rparr>]\<rparr>))"

text \<open>Modelled from the spec: \<open>File.Update\<close> of the absent \<open>models\<close> package:
  one \<^verbatim>\<open>UPDATE files SET ... WHERE id = ?\<close> that writes every column of the struct
  but the identity. It rewrites no row, and raises nothing, when no row has that
  identity.\<close>

definition File_Update :: "db \<Rightarrow> File \<Rightarrow> error + db" where
  "File_Update d f =
     (if File_ID f \<in> set (map File_ID (files d))
         \<and> File_Path f \<in> set (map File_Path (filter (\<lambda>r. File_ID r \<noteq> File_ID f) (files d)))
      then Inl ConstraintViolation
      else Inr (d\<lparr>files := map (\<lambda>r. if File_ID r = File_ID f then f else r) (files d)\<rparr>))"

text \<open>Modelled from the spec: \<open>Service.Insert\<close> of the absent \<open>models\<close> package:
  one \<^verbatim>\<open>INSERT\<close> into \<open>services\<close>, whose \<open>file_id\<close> is null or refers to a row of
  \<open>files\<close> (a foreign-key violation is a constraint error).\<close>

definition Service_Insert :: "db \<Rightarrow> Service \<Rightarrow> error + db" where
  "Service_Insert d s =
     (case assign_rowid (map Service_ID (services d)) (Service_ID s) of
        Inl e \<Rightarrow> Inl e
      | Inr i \<Rightarrow>
          (case Service_FileID s of
             None \<Rightarrow> Inr (d\<lparr>services := services d @ [s\<lparr>Service_ID := i\<rparr>]\<rparr>)
           | Some fid \<Rightarrow>
               if fid \<in> set (map File_ID (files d))
               then Inr (d\<lparr>services := services d @ [s\<lparr>Service_ID := i\<rparr>]\<rparr>)
               else Inl ConstraintViolation))"

text \<open>Modelled from the spec: \<open>File.AddServices\<close> of the absent \<open>models\<close>
  package, as \<open>file.AddServices(ctx, db, true, service)\<close> calls it: the service gets
  the file's identity as its \<open>file_id\<close> and is inserted.\<close>

definition File_AddServices :: "db \<Rightarrow> File \<Rightarrow> Service \<Rightarrow> error + db" where
  "File_AddServices d f s = Service_Insert d (s\<lparr>Service_FileID := Some (File_ID f)\<rparr>)"

text \<open>
  The source holds no statement that deletes a row. What a deletion does to the
  referencing rows is fixed by the schema of \<open>createTables\<close>: the engine's
  \<^verbatim>\<open>DELETE ... WHERE id = ?\<close> applies to them the action declared for the foreign
  key, and a row deleted by a cascade triggers the actions of its own referencing
  rows in turn.
\<close>

definition on_delete_services :: "ref_action \<Rightarrow> int list \<Rightarrow> NginxConfigFile list \<Rightarrow> NginxConfigFile list" where
  "on_delete_services act gone rows =
     (case act of
        Cascade \<Rightarrow>
          filter (\<lambda>a. case NginxConfigFile_ServiceID a of None \<Rightarrow> True | Some i \<Rightarrow> i \<notin> set gone) rows
      | SetNull \<Rightarrow>
          map (\<lambda>a. case NginxConfigFile_ServiceID a of
                      None \<Rightarrow> a
                    | Some i \<Rightarrow> if i \<in> set gone then a\<lparr>NginxConfigFile_ServiceID := None\<rparr> else a) rows)"

definition delete_services_where :: "(Service \<Rightarrow> bool) \<Rightarrow> db \<Rightarrow> db" where
  "delete_services_where P d =
     d\<lparr>services := filter (\<lambda>s. \<not> P s) (services d),
       nginx_config_files :=
         on_delete_services nginx_config_files_service_id_on_delete
           (map Service_ID (filter P (services d))) (nginx_config_files d)\<rparr>"

definition delete_service :: "db \<Rightarrow> int \<Rightarrow> db" where
  "delete_service d sid = delete_services_where (\<lambda>s. Service_ID s = sid) d"

definition on_delete_file :: "ref_action \<Rightarrow> int \<Rightarrow> db \<Rightarrow> db" where
  "on_delete_file act fid d =
     (case act of
        Cascade \<Rightarrow> delete_services_where (\<lambda>s. Service_FileID s = Some fid) d
      | SetNull \<Rightarrow>
          d\<lparr>services := map (\<lambda>s. if Service_FileID s = Some fid
                                   then s\<lparr>Service_FileID := None\<rparr> else s) (services d)\<rparr>)"

definition delete_file :: "db \<Rightarrow> int \<Rightarrow> db" where
  "delete_file d fid =
     (if fid \<in> set (map File_ID (files d))
      then on_delete_file services_file_id_on_delete fid
             (d\<lparr>files := filter (\<lambda>r. File_ID r \<noteq> fid) (files d)\<rparr>)
      else d)"

section \<open>The functions of cmd/db.go\<close>

subsection \<open>Library functions\<close>

text \<open>\<^verbatim>\<open>filepath.Ext\<close> walks back from the end of the name, stops at a path separator
  (the slash), and returns the suffix that starts at the first dot it meets; it is
  empty when there is none. \<^verbatim>\<open>strings.TrimSuffix\<close> removes a suffix that is there.\<close>

fun Ext_scan :: "string \<Rightarrow> string \<Rightarrow> string" where
  "Ext_scan [] acc = []"
| "Ext_scan (c # cs) acc =
     (if c = CHR ''/'' then []
      else if c = CHR ''.'' then c # acc
      else Ext_scan cs (c # acc))"

definition Ext :: "string \<Rightarrow> string" where
  "Ext p = Ext_scan (rev p) []"

definition HasSuffix :: "string \<Rightarrow> string \<Rightarrow> bool" where
  "HasSuffix s suffix =
     (length suffix \<le> length s \<and> drop (length s - length suffix) s = suffix)"

definition TrimSuffix :: "string \<Rightarrow> string \<Rightarrow> string" where
  "TrimSuffix s suffix =
     (if HasSuffix s suffix then take (length s - length suffix) s else s)"

subsection \<open>getFileContent\<close>

definition getFileContent :: "filesystem \<Rightarrow> string \<Rightarrow> error + string" where
  "getFileContent fs path = (case fs path of None \<Rightarrow> Inl ReadError | Some data \<Rightarrow> Inr data)"

subsection \<open>addFile\<close>

text \<open>The result is the error that the Go function returns (\<open>None\<close> for \<open>nil\<close>) and
  the store as the call leaves it.\<close>

definition addFile :: "filesystem \<Rightarrow> db \<Rightarrow> FilePathAndInfo \<Rightarrow> error option \<times> db" where
  "addFile fs d file =
     (case getFileContent fs (fpi_Path file) of
        Inl err \<Rightarrow> (Some err, d)
      | Inr content \<Rightarrow>
          let fModel = \<lparr>File_ID = 0,
                        File_Path = fpi_Path file,
                        File_Name = TrimSuffix (fpi_Name file) (Ext (fpi_Name file)),
                        File_Content = content,
                        File_IsConfigured = False,
                        File_LastModified = fpi_ModTime file\<rparr>
          in (case File_Insert d fModel of
                Inl err \<Rightarrow> (Some err, d)
              | Inr d' \<Rightarrow> (None, d')))"

subsection \<open>updateFile\<close>

text \<open>\<open>oldFile\<close> is a pointer: the fields are assigned before the row is written, so
  the struct is returned as the call leaves it, together with the error and the store.\<close>

definition updateFile ::
  "filesystem \<Rightarrow> db \<Rightarrow> File \<Rightarrow> FilePathAndInfo \<Rightarrow> error option \<times> File \<times> db" where
  "updateFile fs d oldFile file =
     (case getFileContent fs (fpi_Path file) of
        Inl err \<Rightarrow> (Some err, oldFile, d)
      | Inr content \<Rightarrow>
          let oldFile' = oldFile\<lparr>File_Content := content,
                                 File_IsConfigured := False,
                                 File_LastModified := fpi_ModTime file\<rparr>
          in (case File_Update d oldFile' of
                Inl err \<Rightarrow> (Some err, oldFile', d)
              | Inr d' \<Rightarrow> (None, oldFile', d')))"

subsection \<open>configureServices\<close>

text \<open>
  The TOML library and the type \<open>ServiceConfig\<close> are not part of the source, so they
  are parameters: \<open>decode\<close> gives an error message or the decoded map as the list of
  its entries in the order in which the \<^verbatim>\<open>range\<close> loop visits them; \<open>encode\<close> gives
  the error of \<open>encoder.Encode\<close>, if any, and the bytes it wrote to the buffer. The
  loop body calls \<open>encoder.Encode(config)\<close> as a statement, so the error is dropped
  and the buffer is stored as it is.
\<close>

type_synonym 'cfg decoder = "string \<Rightarrow> string + (string \<times> 'cfg) list"
type_synonym 'cfg encoder = "'cfg \<Rightarrow> string option \<times> string"

fun configureServices_loop ::
  "'cfg encoder \<Rightarrow> File \<Rightarrow> (string \<times> 'cfg) list \<Rightarrow> db \<Rightarrow> error option \<times> db" where
  "configureServices_loop encode file [] d = (None, d)"
| "configureServices_loop encode file ((key, config) # rest) d =
     (let b = snd (encode config);
          service = \<lparr>Service_ID = 0,
                     Service_FileID = None,
                     Service_Name = key,
                     Service_Content = b,
                     Service_State = stateNotConfigured,
                     Service_LastModified = File_LastModified file\<rparr>
      in (case File_AddServices d file service of
            Inl err \<Rightarrow> (Some err, d)
          | Inr d' \<Rightarrow> configureServices_loop encode file rest d'))"

definition configureServices ::
  "'cfg decoder \<Rightarrow> 'cfg encoder \<Rightarrow> db \<Rightarrow> File \<Rightarrow> error option \<times> db" where
  "configureServices decode encode d file =
     (case decode (File_Content file) of
        Inl msg \<Rightarrow> (Some (DecodeError msg), d)
      | Inr configs \<Rightarrow> configureServices_loop encode file configs d)"

text \<open>The row that one pass of the loop of \<open>configureServices\<close> stores: the struct
  literal of the loop body with the file's identity as \<open>file_id\<close> and the next
  identity of the table.\<close>

definition new_service :: "File \<Rightarrow> db \<Rightarrow> string \<Rightarrow> string \<Rightarrow> Service" where
  "new_service file d key b =
     \<lparr>Service_ID = next_rowid (map Service_ID (services d)),
      Service_FileID = Some (File_ID file),
      Service_Name = key,
      Service_Content = b,
      Service_State = stateNotConfigured,
      Service_LastModified = File_LastModified file\<rparr>"


subsection \<open>A small store to run the functions on\<close>

definition ex_fs :: filesystem where
  "ex_fs p = (if p = ''/conf/sites.toml'' then Some ''[svc]'' else None)"

definition ex_scan :: FilePathAndInfo where
  "ex_scan = \<lparr>fpi_Path = ''/conf/sites.toml'', fpi_Name = ''sites.toml'', fpi_ModTime = 100\<rparr>"

definition ex_decode :: "string decoder" where
  "ex_decode s = (if s = ''[svc]'' then Inr [(''svc'', ''tls = true'')] else Inl ''bad toml'')"

definition ex_encode :: "string encoder" where
  "ex_encode c = (None, c)"

definition ex_encode_failing :: "string encoder" where
  "ex_encode_failing c = (Some ''cannot encode'', [])"

definition empty_db :: db where
  "empty_db = \<lparr>files = [], services = [], nginx_config_files = []\<rparr>"

definition ex_file :: File where
  "ex_file = \<lparr>File_ID = 1, File_Path = ''/conf/sites.toml'', File_Name = ''sites'',
              File_Content = ''[svc]'', File_IsConfigured = False, File_LastModified = 100\<rparr>"

definition ex_service :: Service where
  "ex_service = \<lparr>Service_ID = 1, Service_FileID = Some 1, Service_Name = ''svc'',
                 Service_Content = ''tls = true'', Service_State = ''configured'',
                 Service_LastModified = 90\<rparr>"

definition ex_artifact :: NginxConfigFile where
  "ex_artifact = \<lparr>NginxConfigFile_ID = 1, NginxConfigFile_ServiceID = Some 1,
                  NginxConfigFile_Type = ''https'', NginxConfigFile_Path = ''/etc/nginx/svc.conf'',
                  NginxConfigFile_LastModified = 95\<rparr>"

definition ex_db :: db where
  "ex_db = \<lparr>files = [ex_file], services = [ex_service], nginx_config_files = [ex_artifact]\<rparr>"

section \<open>Properties\<close>

subsection \<open>Row identities\<close>

lemma fold_max_ge: "(a::int) \<le> fold max xs a"
  by (induction xs arbitrary: a) (auto intro: order_trans [OF max.cobounded2])

lemma fold_max_mem: "(x::int) \<in> set xs \<Longrightarrow> x \<le> fold max xs a"
proof (induction xs arbitrary: a)
  case Nil
  then show ?case by simp
next
  case (Cons y ys)
  show ?case
  proof (cases "x = y")
    case True
    have "y \<le> max y a" by simp
    also have "\<dots> \<le> fold max ys (max y a)" by (rule fold_max_ge)
    finally show ?thesis using True by simp
  next
    case False
    with Cons show ?thesis by simp
  qed
qed

lemma next_rowid_gt: "i \<in> set ids \<Longrightarrow> i < next_rowid ids"
proof (cases ids)
  case Nil
  assume "i \<in> set ids"
  with Nil show ?thesis by simp
next
  case (Cons a rest)
  assume "i \<in> set ids"
  with Cons have "i = a \<or> i \<in> set rest" by simp
  then have "i \<le> fold max rest a"
    using fold_max_ge [of a rest] fold_max_mem [of i rest a] by blast
  with Cons show ?thesis by (simp add: next_rowid_def)
qed

lemma next_rowid_notin: "next_rowid ids \<notin> set ids"
  using next_rowid_gt [of "next_rowid ids" ids] by auto

lemma File_AddServices_fresh:
  "File_AddServices d file
     \<lparr>Service_ID = 0, Service_FileID = None, Service_Name = key, Service_Content = b,
      Service_State = stateNotConfigured, Service_LastModified = File_LastModified file\<rparr> =
   (if File_ID file \<in> set (map File_ID (files d))
    then Inr (d\<lparr>services := services d @ [new_service file d key b]\<rparr>)
    else Inl ConstraintViolation)"
  by (simp add: File_AddServices_def Service_Insert_def assign_rowid_def new_service_def)

lemma loop_step:
  "configureServices_loop encode file ((key, config) # rest) d =
     (if File_ID file \<in> set (map File_ID (files d))
      then configureServices_loop encode file rest
             (d\<lparr>services := services d @ [new_service file d key (snd (encode config))]\<rparr>)
      else (Some ConstraintViolation, d))"
  by (simp add: File_AddServices_fresh Let_def del: File_AddServices_def)


lemma loop_files:
  "files (snd (configureServices_loop encode file cs d)) = files d"
proof (induction cs arbitrary: d)
  case Nil
  show ?case by simp
next
  case (Cons kc rest)
  obtain key config where kc: "kc = (key, config)" by (cases kc)
  show ?case unfolding kc loop_step using Cons.IH by simp
qed

lemma loop_nginx_config_files:
  "nginx_config_files (snd (configureServices_loop encode file cs d)) = nginx_config_files d"
proof (induction cs arbitrary: d)
  case Nil
  show ?case by simp
next
  case (Cons kc rest)
  obtain key config where kc: "kc = (key, config)" by (cases kc)
  show ?case unfolding kc loop_step using Cons.IH by simp
qed

text \<open>What the loop appends: the rows after the ones that were there.\<close>

lemma loop_appends:
  "\<exists>new. services (snd (configureServices_loop encode file cs d)) = services d @ new
      \<and> length new \<le> length cs
      \<and> (\<forall>s \<in> set new. Service_State s = stateNotConfigured
             \<and> Service_LastModified s = File_LastModified file
             \<and> Service_FileID s = Some (File_ID file)
             \<and> (\<forall>i \<in> set (map Service_ID (services d)). i < Service_ID s))
      \<and> sorted_wrt (<) (map Service_ID new)"
proof (induction cs arbitrary: d)
  case Nil
  show ?case by simp
next
  case (Cons kc rest)
  obtain key config where kc: "kc = (key, config)" by (cases kc)
  show ?case
  proof (cases "File_ID file \<in> set (map File_ID (files d))")
    case False
    then show ?thesis unfolding kc loop_step by simp
  next
    case True
    define r where "r = new_service file d key (snd (encode config))"
    define d1 where "d1 = d\<lparr>services := services d @ [r]\<rparr>"
    have step: "configureServices_loop encode file (kc # rest) d = configureServices_loop encode file rest d1"
      unfolding kc loop_step d1_def r_def using True by simp
    from Cons.IH [of d1] obtain new where
      n1: "services (snd (configureServices_loop encode file rest d1)) = services d1 @ new"
      and n2: "length new \<le> length rest"
      and n3: "\<forall>s \<in> set new. Service_State s = stateNotConfigured
             \<and> Service_LastModified s = File_LastModified file
             \<and> Service_FileID s = Some (File_ID file)
             \<and> (\<forall>i \<in> set (map Service_ID (services d1)). i < Service_ID s)"
      and n4: "sorted_wrt (<) (map Service_ID new)"
      by blast
    have r_id: "\<forall>i \<in> set (map Service_ID (services d)). i < Service_ID r"
      unfolding r_def new_service_def using next_rowid_gt by simp
    have r_rest: "Service_State r = stateNotConfigured" "Service_LastModified r = File_LastModified file"
      "Service_FileID r = Some (File_ID file)"
      unfolding r_def new_service_def by simp_all
    have below: "\<forall>s \<in> set new. Service_ID r < Service_ID s"
      using n3 unfolding d1_def by simp
    have a1: "services (snd (configureServices_loop encode file (kc # rest) d)) = services d @ (r # new)"
      using n1 unfolding step by (simp add: d1_def)
    have a2: "length (r # new) \<le> length (kc # rest)" using n2 by simp
    have a3: "\<forall>s \<in> set (r # new). Service_State s = stateNotConfigured
             \<and> Service_LastModified s = File_LastModified file
             \<and> Service_FileID s = Some (File_ID file)
             \<and> (\<forall>i \<in> set (map Service_ID (services d)). i < Service_ID s)"
      using n3 r_id r_rest unfolding d1_def by simp
    have a4: "sorted_wrt (<) (map Service_ID (r # new))"
      using n4 below by simp
    from a1 a2 a3 a4 show ?thesis by blast
  qed
qed

lemma loop_success:
  "fst (configureServices_loop encode file cs d) = None \<Longrightarrow>
   map Service_Name (drop (length (services d)) (services (snd (configureServices_loop encode file cs d))))
     = map fst cs \<and>
   map Service_Content (drop (length (services d)) (services (snd (configureServices_loop encode file cs d))))
     = map (\<lambda>kc. snd (encode (snd kc))) cs"
proof (induction cs arbitrary: d)
  case Nil
  show ?case by simp
next
  case (Cons kc rest)
  obtain key config where kc: "kc = (key, config)" by (cases kc)
  show ?case
  proof (cases "File_ID file \<in> set (map File_ID (files d))")
    case False
    with Cons.prems show ?thesis unfolding kc loop_step by simp
  next
    case True
    define r where "r = new_service file d key (snd (encode config))"
    define d1 where "d1 = d\<lparr>services := services d @ [r]\<rparr>"
    have step: "configureServices_loop encode file (kc # rest) d = configureServices_loop encode file rest d1"
      unfolding kc loop_step d1_def r_def using True by simp
    from loop_appends [of encode "file" rest d1] obtain new where
      n1: "services (snd (configureServices_loop encode file rest d1)) = services d1 @ new"
      by blast
    have ok: "fst (configureServices_loop encode file rest d1) = None"
      using Cons.prems step by simp
    have len: "length (services d1) = Suc (length (services d))" unfolding d1_def by simp
    have dr: "drop (length (services d)) (services (snd (configureServices_loop encode file (kc # rest) d)))
        = r # drop (length (services d1)) (services (snd (configureServices_loop encode file rest d1)))"
      using n1 unfolding step by (simp add: d1_def)
    have rn: "Service_Name r = key" "Service_Content r = snd (encode config)"
      unfolding r_def new_service_def by simp_all
    show ?thesis unfolding dr using Cons.IH [OF ok] rn kc by simp
  qed
qed

subsection \<open>Frame lemmas\<close>

lemma configureServices_files:
  "files (snd (configureServices decode encode d f)) = files d"
  by (simp add: configureServices_def loop_files split: sum.splits)

lemma configureServices_nginx_config_files:
  "nginx_config_files (snd (configureServices decode encode d f)) = nginx_config_files d"
  by (simp add: configureServices_def loop_nginx_config_files split: sum.splits)

lemma addFile_success:
  assumes "addFile fs d scan = (None, d1)"
  shows "\<exists>row. files d1 = files d @ [row] \<and> File_Path row = fpi_Path scan
           \<and> \<not> File_IsConfigured row \<and> fpi_Path scan \<notin> set (map File_Path (files d))
           \<and> services d1 = services d \<and> nginx_config_files d1 = nginx_config_files d"
  using assms
  by (auto simp: addFile_def getFileContent_def File_Insert_def assign_rowid_def Let_def
           split: option.splits sum.splits if_splits)

lemma updateFile_success:
  assumes "updateFile fs d oldFile scan = (None, oldFile', d1)"
  shows "\<not> File_IsConfigured oldFile' \<and> File_ID oldFile' = File_ID oldFile
         \<and> files d1 = map (\<lambda>r. if File_ID r = File_ID oldFile then oldFile' else r) (files d)"
  using assms
  by (auto simp: updateFile_def getFileContent_def File_Update_def Let_def
           split: option.splits sum.splits if_splits)

section \<open>The claims\<close>

text \<open>
  C5: when the content of the file does not decode, \<open>configureServices\<close> returns the
  decode error and leaves the store exactly as it found it: no Service row is inserted,
  updated or deleted, and no File row changes, so a flag that was false stays false.
\<close>

theorem configureServices_decode_error:
  assumes "decode (File_Content f) = Inl msg"
  shows "configureServices decode encode d f = (Some (DecodeError msg), d)"
  using assms by (simp add: configureServices_def)

theorem configureServices_decode_error_witness:
  "ex_decode (File_Content (ex_file\<lparr>File_Content := ''[svc''\<rparr>)) = Inl ''bad toml''
   \<and> configureServices ex_decode ex_encode ex_db (ex_file\<lparr>File_Content := ''[svc''\<rparr>)
       = (Some (DecodeError ''bad toml''), ex_db)"
proof -
  have h: "ex_decode (File_Content (ex_file\<lparr>File_Content := ''[svc''\<rparr>)) = Inl ''bad toml''"
    by (simp add: ex_decode_def)
  from configureServices_decode_error [of ex_decode "ex_file\<lparr>File_Content := ''[svc''\<rparr>" "''bad toml''" ex_encode ex_db] h
  show ?thesis by simp
qed

text \<open>
  C1 asks that deleting a File row leaves its Service rows in place with a null
  owning-file reference. The schema declares \<^verbatim>\<open>ON DELETE CASCADE\<close> for
  \<open>services.file_id\<close>: deleting File 1 of the example store deletes its Service row as
  well (and, through \<^verbatim>\<open>ON DELETE SET NULL\<close>, disowns that Service's artifact).
\<close>

theorem delete_file_removes_services:
  "delete_file ex_db 1 =
     \<lparr>files = [], services = [],
      nginx_config_files = [ex_artifact\<lparr>NginxConfigFile_ServiceID := None\<rparr>]\<rparr>"
  by (simp add: delete_file_def on_delete_file_def services_file_id_on_delete_def
        delete_services_where_def on_delete_services_def
        nginx_config_files_service_id_on_delete_def ex_db_def ex_file_def ex_service_def
        ex_artifact_def)

text \<open>
  C3 asks that no error value is discarded. The loop of \<open>configureServices\<close> ignores
  the result of \<open>encoder.Encode\<close>: with an encoder that fails on the decoded definition,
  the call still returns no error and stores a Service row whose content is whatever
  the buffer held (here nothing).
\<close>

theorem configureServices_drops_encode_error:
  "fst (ex_encode_failing ''tls = true'') = Some ''cannot encode'' \<and>
   configureServices ex_decode ex_encode_failing ex_db ex_file =
     (None, ex_db\<lparr>services := [ex_service,
        \<lparr>Service_ID = 2, Service_FileID = Some 1, Service_Name = ''svc'',
         Service_Content = [], Service_State = ''not configured'',
         Service_LastModified = 100\<rparr>]\<rparr>)"
  by (simp add: configureServices_def ex_decode_def ex_encode_failing_def ex_db_def ex_file_def
        ex_service_def File_AddServices_def Service_Insert_def assign_rowid_def next_rowid_def
        stateNotConfigured_def)

text \<open>
  C7: every Service row that \<open>configureServices\<close> adds (the rows after the ones the
  table held before the call) is in state \<open>stateNotConfigured\<close>, carries the
  last-modified time of the File struct it was created for, and refers to that File.
  This holds for every outcome of the call, also when it stops with an error.
\<close>

theorem configureServices_rows_not_configured:
  "\<forall>s \<in> set (drop (length (services d)) (services (snd (configureServices decode encode d f)))).
      Service_State s = stateNotConfigured
      \<and> Service_LastModified s = File_LastModified f
      \<and> Service_FileID s = Some (File_ID f)"
proof (cases "decode (File_Content f)")
  case (Inl msg)
  then show ?thesis by (simp add: configureServices_def)
next
  case (Inr configs)
  from loop_appends [of encode f configs d] obtain new where
    n1: "services (snd (configureServices_loop encode f configs d)) = services d @ new"
    and n3: "\<forall>s \<in> set new. Service_State s = stateNotConfigured
             \<and> Service_LastModified s = File_LastModified f
             \<and> Service_FileID s = Some (File_ID f)
             \<and> (\<forall>i \<in> set (map Service_ID (services d)). i < Service_ID s)"
    by blast
  have "drop (length (services d)) (services (snd (configureServices decode encode d f))) = new"
    using Inr n1 by (simp add: configureServices_def)
  with n3 show ?thesis by simp
qed

theorem configureServices_rows_not_configured_witness:
  "drop (length (services ex_db)) (services (snd (configureServices ex_decode ex_encode ex_db ex_file)))
     = [\<lparr>Service_ID = 2, Service_FileID = Some 1, Service_Name = ''svc'',
         Service_Content = ''tls = true'', Service_State = ''not configured'',
         Service_LastModified = 100\<rparr>]
   \<and> Service_State (last (services (snd (configureServices ex_decode ex_encode ex_db ex_file))))
       = stateNotConfigured
   \<and> Service_LastModified (last (services (snd (configureServices ex_decode ex_encode ex_db ex_file))))
       = File_LastModified ex_file
   \<and> Service_FileID (last (services (snd (configureServices ex_decode ex_encode ex_db ex_file))))
       = Some (File_ID ex_file)"
proof -
  let ?rows = "services (snd (configureServices ex_decode ex_encode ex_db ex_file))"
  have run: "drop (length (services ex_db)) ?rows
     = [\<lparr>Service_ID = 2, Service_FileID = Some 1, Service_Name = ''svc'',
         Service_Content = ''tls = true'', Service_State = ''not configured'',
         Service_LastModified = 100\<rparr>]"
    by (simp add: configureServices_def ex_decode_def ex_encode_def ex_db_def ex_file_def
        ex_service_def File_AddServices_def Service_Insert_def assign_rowid_def next_rowid_def
        stateNotConfigured_def)
  have ne: "drop (length (services ex_db)) ?rows \<noteq> []"
    unfolding run by simp
  then have "length (services ex_db) < length ?rows"
    by simp
  then have "last (drop (length (services ex_db)) ?rows) = last ?rows"
    by (rule last_drop)
  with last_in_set [OF ne]
  have "last ?rows \<in> set (drop (length (services ex_db)) ?rows)"
    by simp
  with configureServices_rows_not_configured [of ex_db ex_decode ex_encode ex_file]
  have "Service_State (last ?rows) = stateNotConfigured
      \<and> Service_LastModified (last ?rows) = File_LastModified ex_file
      \<and> Service_FileID (last ?rows) = Some (File_ID ex_file)"
    by blast
  with run show ?thesis by blast
qed

text \<open>
  C4: when the content decodes, \<open>configureServices\<close> only appends to the services
  table: the rows that were there are still there, in place and unmodified; the
  identities of the added rows are new and pairwise different; and when the call
  returns no error there is exactly one added row per decoded definition, named by
  its key and holding the bytes the encoder wrote for it.
\<close>

theorem configureServices_inserts_keeps_prior_rows:
  assumes "decode (File_Content f) = Inr configs"
  shows "take (length (services d)) (services (snd (configureServices decode encode d f))) = services d
    \<and> (\<forall>s \<in> set (drop (length (services d)) (services (snd (configureServices decode encode d f)))).
          Service_ID s \<notin> set (map Service_ID (services d)))
    \<and> distinct (map Service_ID (drop (length (services d)) (services (snd (configureServices decode encode d f)))))
    \<and> (fst (configureServices decode encode d f) = None \<longrightarrow>
          length (services (snd (configureServices decode encode d f)))
            = length (services d) + length configs
          \<and> map Service_Name (drop (length (services d)) (services (snd (configureServices decode encode d f))))
            = map fst configs
          \<and> map Service_Content (drop (length (services d)) (services (snd (configureServices decode encode d f))))
            = map (\<lambda>kc. snd (encode (snd kc))) configs)"
proof -
  have cs: "configureServices decode encode d f = configureServices_loop encode f configs d"
    using assms by (simp add: configureServices_def)
  from loop_appends [of encode f configs d] obtain new where
    n1: "services (snd (configureServices_loop encode f configs d)) = services d @ new"
    and n3: "\<forall>s \<in> set new. Service_State s = stateNotConfigured
             \<and> Service_LastModified s = File_LastModified f
             \<and> Service_FileID s = Some (File_ID f)
             \<and> (\<forall>i \<in> set (map Service_ID (services d)). i < Service_ID s)"
    and n4: "sorted_wrt (<) (map Service_ID new)"
    by blast
  have dr: "drop (length (services d)) (services (snd (configureServices decode encode d f))) = new"
    unfolding cs n1 by simp
  have p1: "take (length (services d)) (services (snd (configureServices decode encode d f))) = services d"
    unfolding cs n1 by simp
  have p2: "\<forall>s \<in> set new. Service_ID s \<notin> set (map Service_ID (services d))"
  proof
    fix s assume s: "s \<in> set new"
    show "Service_ID s \<notin> set (map Service_ID (services d))"
    proof
      assume "Service_ID s \<in> set (map Service_ID (services d))"
      with n3 s have "Service_ID s < Service_ID s" by blast
      then show False by simp
    qed
  qed
  have p3: "distinct (map Service_ID new)"
    using n4 by (simp add: strict_sorted_iff)
  have p4: "fst (configureServices decode encode d f) = None \<longrightarrow>
          length (services (snd (configureServices decode encode d f)))
            = length (services d) + length configs
          \<and> map Service_Name new = map fst configs
          \<and> map Service_Content new = map (\<lambda>kc. snd (encode (snd kc))) configs"
  proof
    assume ok: "fst (configureServices decode encode d f) = None"
    then have ok': "fst (configureServices_loop encode f configs d) = None" unfolding cs .
    from loop_success [OF ok'] have
      m1: "map Service_Name new = map fst configs" and
      m2: "map Service_Content new = map (\<lambda>kc. snd (encode (snd kc))) configs"
      using dr unfolding cs by simp_all
    from m1 have "length new = length configs" by (metis length_map)
    then have "length (services (snd (configureServices decode encode d f))) = length (services d) + length configs"
      unfolding cs n1 by simp
    with m1 m2 show "length (services (snd (configureServices decode encode d f)))
            = length (services d) + length configs
          \<and> map Service_Name new = map fst configs
          \<and> map Service_Content new = map (\<lambda>kc. snd (encode (snd kc))) configs" by simp
  qed
  show ?thesis unfolding dr using p1 p2 p3 p4 by blast
qed

theorem configureServices_inserts_keeps_prior_rows_witness:
  "ex_decode (File_Content ex_file) = Inr [(''svc'', ''tls = true'')]
   \<and> fst (configureServices ex_decode ex_encode ex_db ex_file) = None
   \<and> take (length (services ex_db)) (services (snd (configureServices ex_decode ex_encode ex_db ex_file)))
       = services ex_db
   \<and> length (services (snd (configureServices ex_decode ex_encode ex_db ex_file))) = 2
   \<and> map Service_Name (drop (length (services ex_db))
          (services (snd (configureServices ex_decode ex_encode ex_db ex_file)))) = [''svc'']"
proof -
  have h: "ex_decode (File_Content ex_file) = Inr [(''svc'', ''tls = true'')]"
    by (simp add: ex_decode_def ex_file_def)
  have ok: "fst (configureServices ex_decode ex_encode ex_db ex_file) = None"
    by (simp add: configureServices_def ex_decode_def ex_encode_def ex_db_def ex_file_def
        ex_service_def File_AddServices_def Service_Insert_def assign_rowid_def)
  have len: "length (services ex_db) = 1" by (simp add: ex_db_def)
  from configureServices_inserts_keeps_prior_rows [of ex_decode ex_file "[(''svc'', ''tls = true'')]" ex_db ex_encode, OF h]
    h ok len
  show ?thesis by simp
qed

text \<open>
  C2 asks that a pass in which every decoded definition is persisted ends with the
  File's flag set to true. No function of the source sets it: after \<open>addFile\<close> and a
  \<open>configureServices\<close> that stores the file's one definition without error, the flag
  of the example file is false.
\<close>

theorem configureServices_leaves_flag_false_counterexample:
  "fst (addFile ex_fs empty_db ex_scan) = None
   \<and> files (snd (addFile ex_fs empty_db ex_scan)) = [ex_file]
   \<and> fst (configureServices ex_decode ex_encode (snd (addFile ex_fs empty_db ex_scan)) ex_file) = None
   \<and> map Service_Name (services
        (snd (configureServices ex_decode ex_encode (snd (addFile ex_fs empty_db ex_scan)) ex_file)))
      = [''svc'']
   \<and> map File_IsConfigured (files
        (snd (configureServices ex_decode ex_encode (snd (addFile ex_fs empty_db ex_scan)) ex_file)))
      = [False]"
proof -
  have a: "addFile ex_fs empty_db ex_scan = (None, empty_db\<lparr>files := [ex_file]\<rparr>)"
    by (simp add: addFile_def getFileContent_def ex_fs_def ex_scan_def empty_db_def ex_file_def
        File_Insert_def assign_rowid_def next_rowid_def TrimSuffix_def HasSuffix_def Ext_def)
  show ?thesis unfolding a
    by (simp add: configureServices_def ex_decode_def ex_encode_def empty_db_def ex_file_def
        File_AddServices_def Service_Insert_def assign_rowid_def next_rowid_def)
qed

text \<open>
  C2, as the code has it: \<open>configureServices\<close> never changes a File row; \<open>addFile\<close>
  and \<open>updateFile\<close> store the flag as false. So after a successful \<open>addFile\<close> or
  \<open>updateFile\<close>, whatever \<open>configureServices\<close> then does, the File's flag is false.
\<close>

theorem configureServices_leaves_flag_false:
  "files (snd (configureServices decode encode d1 f)) = files d1
   \<and> (addFile fs d scan = (None, d1) \<longrightarrow>
        (\<forall>r \<in> set (files (snd (configureServices decode encode d1 f))).
           File_Path r = fpi_Path scan \<longrightarrow> \<not> File_IsConfigured r))
   \<and> (updateFile fs d oldFile scan = (None, oldFile', d1) \<longrightarrow>
        (\<forall>r \<in> set (files (snd (configureServices decode encode d1 f))).
           File_ID r = File_ID oldFile \<longrightarrow> \<not> File_IsConfigured r))"
proof -
  have frame: "files (snd (configureServices decode encode d1 f)) = files d1"
    by (rule configureServices_files)
  have added: "addFile fs d scan = (None, d1) \<longrightarrow>
        (\<forall>r \<in> set (files d1). File_Path r = fpi_Path scan \<longrightarrow> \<not> File_IsConfigured r)"
  proof
    assume "addFile fs d scan = (None, d1)"
    from addFile_success [OF this] obtain row where
      "files d1 = files d @ [row]" "File_Path row = fpi_Path scan" "\<not> File_IsConfigured row"
      "fpi_Path scan \<notin> set (map File_Path (files d))"
      by blast
    then show "\<forall>r \<in> set (files d1). File_Path r = fpi_Path scan \<longrightarrow> \<not> File_IsConfigured r"
      by (auto simp: image_iff)
  qed
  have updated: "updateFile fs d oldFile scan = (None, oldFile', d1) \<longrightarrow>
        (\<forall>r \<in> set (files d1). File_ID r = File_ID oldFile \<longrightarrow> \<not> File_IsConfigured r)"
  proof
    assume "updateFile fs d oldFile scan = (None, oldFile', d1)"
    from updateFile_success [OF this]
    show "\<forall>r \<in> set (files d1). File_ID r = File_ID oldFile \<longrightarrow> \<not> File_IsConfigured r"
      by auto
  qed
  show ?thesis unfolding frame using added updated by simp
qed

theorem configureServices_leaves_flag_false_witness:
  "addFile ex_fs empty_db ex_scan = (None, empty_db\<lparr>files := [ex_file]\<rparr>)
   \<and> files (snd (configureServices ex_decode ex_encode (empty_db\<lparr>files := [ex_file]\<rparr>) ex_file))
       = [ex_file]
   \<and> \<not> File_IsConfigured
         (hd (files (snd (configureServices ex_decode ex_encode (empty_db\<lparr>files := [ex_file]\<rparr>) ex_file))))
   \<and> updateFile ex_fs ex_db ex_file (ex_scan\<lparr>fpi_ModTime := 200\<rparr>)
       = (None, ex_file\<lparr>File_LastModified := 200\<rparr>, ex_db\<lparr>files := [ex_file\<lparr>File_LastModified := 200\<rparr>]\<rparr>)
   \<and> \<not> File_IsConfigured
         (hd (files (snd (configureServices ex_decode ex_encode
                (ex_db\<lparr>files := [ex_file\<lparr>File_LastModified := 200\<rparr>]\<rparr>)
                (ex_file\<lparr>File_LastModified := 200\<rparr>)))))"
proof -
  let ?d1 = "empty_db\<lparr>files := [ex_file]\<rparr>"
  let ?f2 = "ex_file\<lparr>File_LastModified := 200\<rparr>"
  let ?d2 = "ex_db\<lparr>files := [?f2]\<rparr>"
  have a: "addFile ex_fs empty_db ex_scan = (None, ?d1)"
    by (simp add: addFile_def getFileContent_def ex_fs_def ex_scan_def empty_db_def ex_file_def
        File_Insert_def assign_rowid_def next_rowid_def TrimSuffix_def HasSuffix_def Ext_def)
  have u: "updateFile ex_fs ex_db ex_file (ex_scan\<lparr>fpi_ModTime := 200\<rparr>) = (None, ?f2, ?d2)"
    by (simp add: updateFile_def getFileContent_def ex_fs_def ex_scan_def ex_db_def ex_file_def
        File_Update_def Let_def)
  have p: "File_Path ex_file = fpi_Path ex_scan"
    by (simp add: ex_file_def ex_scan_def)
  from configureServices_leaves_flag_false
         [of ex_decode ex_encode ?d1 ex_file ex_fs empty_db ex_scan] a
  have f1: "files (snd (configureServices ex_decode ex_encode ?d1 ex_file)) = [ex_file]"
    and c1: "\<forall>r \<in> set (files (snd (configureServices ex_decode ex_encode ?d1 ex_file))).
         File_Path r = fpi_Path ex_scan \<longrightarrow> \<not> File_IsConfigured r"
    by simp_all
  from c1 p have n1: "\<not> File_IsConfigured (hd (files (snd (configureServices ex_decode ex_encode ?d1 ex_file))))"
    unfolding f1 by simp
  from configureServices_leaves_flag_false
         [of ex_decode ex_encode ?d2 ?f2 ex_fs ex_db "ex_scan\<lparr>fpi_ModTime := 200\<rparr>" ex_file ?f2] u
  have f2: "files (snd (configureServices ex_decode ex_encode ?d2 ?f2)) = [?f2]"
    and c2: "\<forall>r \<in> set (files (snd (configureServices ex_decode ex_encode ?d2 ?f2))).
         File_ID r = File_ID ex_file \<longrightarrow> \<not> File_IsConfigured r"
    by simp_all
  from c2 have n2: "\<not> File_IsConfigured (hd (files (snd (configureServices ex_decode ex_encode ?d2 ?f2))))"
    unfolding f2 by simp
  from a f1 n1 u n2 show ?thesis by blast
qed

text \<open>
  C6: for a File that is stored (the struct is a row of the table, whose paths are
  unique) and a scan whose content can be read, \<open>updateFile\<close> returns no error, sets
  the content to the bytes read and the last-modified time to the scan's, resets the
  flag to false, in the struct and in the row of that identity, and changes nothing
  else in the store.
\<close>

theorem updateFile_sets_content_resets_flag:
  assumes "oldFile \<in> set (files d)"
    and "distinct (map File_Path (files d))"
    and "fs (fpi_Path scan) = Some content"
  shows "\<exists>d'. updateFile fs d oldFile scan =
           (None, oldFile\<lparr>File_Content := content, File_IsConfigured := False,
                          File_LastModified := fpi_ModTime scan\<rparr>, d')
         \<and> files d' = map (\<lambda>r. if File_ID r = File_ID oldFile
                                then oldFile\<lparr>File_Content := content, File_IsConfigured := False,
                                             File_LastModified := fpi_ModTime scan\<rparr>
                                else r) (files d)
         \<and> oldFile\<lparr>File_Content := content, File_IsConfigured := False,
                    File_LastModified := fpi_ModTime scan\<rparr> \<in> set (files d')
         \<and> services d' = services d
         \<and> nginx_config_files d' = nginx_config_files d"
proof -
  define new where "new = oldFile\<lparr>File_Content := content, File_IsConfigured := False,
                          File_LastModified := fpi_ModTime scan\<rparr>"
  have ids: "File_ID new = File_ID oldFile" and paths: "File_Path new = File_Path oldFile"
    unfolding new_def by simp_all
  have inj: "inj_on File_Path (set (files d))"
    using assms(2) by (simp add: distinct_map)
  have no_clash: "File_Path new \<notin> set (map File_Path (filter (\<lambda>r. File_ID r \<noteq> File_ID new) (files d)))"
  proof
    assume "File_Path new \<in> set (map File_Path (filter (\<lambda>r. File_ID r \<noteq> File_ID new) (files d)))"
    then obtain r where r: "r \<in> set (files d)" "File_ID r \<noteq> File_ID new" "File_Path r = File_Path new"
      by auto
    from r(3) paths have "File_Path r = File_Path oldFile" by simp
    with inj r(1) assms(1) have "r = oldFile" by (auto dest: inj_onD)
    with r(2) ids show False by simp
  qed
  have upd: "File_Update d new = Inr (d\<lparr>files := map (\<lambda>r. if File_ID r = File_ID new then new else r) (files d)\<rparr>)"
    using no_clash by (simp add: File_Update_def)
  have run: "updateFile fs d oldFile scan =
      (None, new, d\<lparr>files := map (\<lambda>r. if File_ID r = File_ID oldFile then new else r) (files d)\<rparr>)"
    using assms(3) upd ids by (simp add: updateFile_def getFileContent_def new_def [symmetric])
  have mem: "new \<in> set (map (\<lambda>r. if File_ID r = File_ID oldFile then new else r) (files d))"
    using assms(1) by (auto simp: image_iff intro!: bexI [of _ oldFile])
  show ?thesis unfolding new_def [symmetric] using run mem by simp
qed

theorem updateFile_sets_content_resets_flag_witness:
  "ex_file\<lparr>File_IsConfigured := True\<rparr> \<in> set [ex_file\<lparr>File_IsConfigured := True\<rparr>]
   \<and> distinct (map File_Path [ex_file\<lparr>File_IsConfigured := True\<rparr>])
   \<and> ex_fs (fpi_Path (ex_scan\<lparr>fpi_ModTime := 200\<rparr>)) = Some ''[svc]''
   \<and> updateFile ex_fs (ex_db\<lparr>files := [ex_file\<lparr>File_IsConfigured := True\<rparr>]\<rparr>)
        (ex_file\<lparr>File_IsConfigured := True\<rparr>) (ex_scan\<lparr>fpi_ModTime := 200\<rparr>)
      = (None, ex_file\<lparr>File_LastModified := 200\<rparr>,
         ex_db\<lparr>files := [ex_file\<lparr>File_LastModified := 200\<rparr>]\<rparr>)"
proof -
  have h1: "ex_file\<lparr>File_IsConfigured := True\<rparr> \<in> set (files (ex_db\<lparr>files := [ex_file\<lparr>File_IsConfigured := True\<rparr>]\<rparr>))"
    by simp
  have h2: "distinct (map File_Path (files (ex_db\<lparr>files := [ex_file\<lparr>File_IsConfigured := True\<rparr>]\<rparr>)))"
    by simp
  have h3: "ex_fs (fpi_Path (ex_scan\<lparr>fpi_ModTime := 200\<rparr>)) = Some ''[svc]''"
    by (simp add: ex_fs_def ex_scan_def)
  from updateFile_sets_content_resets_flag
         [of "ex_file\<lparr>File_IsConfigured := True\<rparr>"
             "ex_db\<lparr>files := [ex_file\<lparr>File_IsConfigured := True\<rparr>]\<rparr>"
             ex_fs "ex_scan\<lparr>fpi_ModTime := 200\<rparr>" "''[svc]''", OF h1 h2 h3]
  obtain d' where
    r: "updateFile ex_fs (ex_db\<lparr>files := [ex_file\<lparr>File_IsConfigured := True\<rparr>]\<rparr>)
        (ex_file\<lparr>File_IsConfigured := True\<rparr>) (ex_scan\<lparr>fpi_ModTime := 200\<rparr>)
        = (None, ex_file\<lparr>File_IsConfigured := True\<rparr>\<lparr>File_Content := ''[svc]'', File_IsConfigured := False,
                          File_LastModified := fpi_ModTime (ex_scan\<lparr>fpi_ModTime := 200\<rparr>)\<rparr>, d')"
    and f: "files d' = map (\<lambda>r. if File_ID r = File_ID (ex_file\<lparr>File_IsConfigured := True\<rparr>)
                                then ex_file\<lparr>File_IsConfigured := True\<rparr>\<lparr>File_Content := ''[svc]'', File_IsConfigured := False,
                                             File_LastModified := fpi_ModTime (ex_scan\<lparr>fpi_ModTime := 200\<rparr>)\<rparr>
                                else r) (files (ex_db\<lparr>files := [ex_file\<lparr>File_IsConfigured := True\<rparr>]\<rparr>))"
    and s: "services d' = services (ex_db\<lparr>files := [ex_file\<lparr>File_IsConfigured := True\<rparr>]\<rparr>)"
    and n: "nginx_config_files d' = nginx_config_files (ex_db\<lparr>files := [ex_file\<lparr>File_IsConfigured := True\<rparr>]\<rparr>)"
    by blast
  have d': "d' = ex_db\<lparr>files := [ex_file\<lparr>File_LastModified := 200\<rparr>]\<rparr>"
    using f s n by (cases d') (simp add: ex_db_def ex_file_def)
  show ?thesis using r h3 unfolding d' by (simp add: ex_file_def)
qed

text \<open>
  C8: after an \<open>addFile\<close> that succeeded, an \<open>addFile\<close> with the same path fails and
  leaves the store as it was, first row included: with a constraint violation
  whenever the content of the path can be read (otherwise the read error comes
  first). The table holds exactly one row with that path.
\<close>

theorem addFile_same_path_twice:
  assumes "addFile fs d scan1 = (None, d1)"
    and "fpi_Path scan2 = fpi_Path scan1"
  shows "addFile fs2 d1 scan2 =
           (Some (case fs2 (fpi_Path scan2) of None \<Rightarrow> ReadError | Some content \<Rightarrow> ConstraintViolation), d1)
         \<and> length (filter (\<lambda>r. File_Path r = fpi_Path scan1) (files d1)) = 1"
proof -
  from addFile_success [OF assms(1)] obtain row where
    f: "files d1 = files d @ [row]" and p: "File_Path row = fpi_Path scan1"
    and n: "fpi_Path scan1 \<notin> set (map File_Path (files d))"
    by blast
  have present: "fpi_Path scan2 \<in> set (map File_Path (files d1))"
    using f p assms(2) by simp
  have second: "addFile fs2 d1 scan2 =
           (Some (case fs2 (fpi_Path scan2) of None \<Rightarrow> ReadError | Some content \<Rightarrow> ConstraintViolation), d1)"
    using present
    by (simp add: addFile_def getFileContent_def File_Insert_def assign_rowid_def Let_def
             split: option.splits)
  have "filter (\<lambda>r. File_Path r = fpi_Path scan1) (files d) = []"
    using n by (force simp: filter_empty_conv)
  then have once: "length (filter (\<lambda>r. File_Path r = fpi_Path scan1) (files d1)) = 1"
    using f p by simp
  from second once show ?thesis by simp
qed

theorem addFile_same_path_twice_witness:
  "addFile ex_fs empty_db ex_scan = (None, empty_db\<lparr>files := [ex_file]\<rparr>)
   \<and> fpi_Path (ex_scan\<lparr>fpi_Name := ''copy.toml'', fpi_ModTime := 200\<rparr>) = fpi_Path ex_scan
   \<and> addFile ex_fs (empty_db\<lparr>files := [ex_file]\<rparr>)
        (ex_scan\<lparr>fpi_Name := ''copy.toml'', fpi_ModTime := 200\<rparr>)
      = (Some ConstraintViolation, empty_db\<lparr>files := [ex_file]\<rparr>)
   \<and> length (filter (\<lambda>r. File_Path r = fpi_Path ex_scan) (files (empty_db\<lparr>files := [ex_file]\<rparr>))) = 1"
proof -
  have a: "addFile ex_fs empty_db ex_scan = (None, empty_db\<lparr>files := [ex_file]\<rparr>)"
    by (simp add: addFile_def getFileContent_def ex_fs_def ex_scan_def empty_db_def ex_file_def
        File_Insert_def assign_rowid_def next_rowid_def TrimSuffix_def HasSuffix_def Ext_def)
  have b: "fpi_Path (ex_scan\<lparr>fpi_Name := ''copy.toml'', fpi_ModTime := 200\<rparr>) = fpi_Path ex_scan"
    by simp
  have c: "ex_fs (fpi_Path (ex_scan\<lparr>fpi_Name := ''copy.toml'', fpi_ModTime := 200\<rparr>)) = Some ''[svc]''"
    by (simp add: ex_fs_def ex_scan_def)
  from addFile_same_path_twice
         [of ex_fs empty_db ex_scan "empty_db\<lparr>files := [ex_file]\<rparr>"
             "ex_scan\<lparr>fpi_Name := ''copy.toml'', fpi_ModTime := 200\<rparr>" ex_fs, OF a b]
    a b c
  show ?thesis by simp
qed

text \<open>Deleting Service rows rewrites the artifact table row by row.\<close>

lemma delete_services_where_nginx_config_files:
  "nginx_config_files (delete_services_where P d) =
     map (\<lambda>a. case NginxConfigFile_ServiceID a of
                 None \<Rightarrow> a
               | Some i \<Rightarrow> if i \<in> set (map Service_ID (filter P (services d)))
                           then a\<lparr>NginxConfigFile_ServiceID := None\<rparr> else a)
         (nginx_config_files d)"
  by (simp add: delete_services_where_def on_delete_services_def
        nginx_config_files_service_id_on_delete_def)

text \<open>
  C9: deleting a Service row keeps every row of \<open>nginx_config_files\<close>, in place, and
  sets the owning-service reference of the rows that pointed to it to null. The same
  holds for the Service rows that the deletion of a File removes by cascade.
\<close>

theorem deleting_service_disowns_artifacts:
  "nginx_config_files (delete_service d sid) =
     map (\<lambda>a. if NginxConfigFile_ServiceID a = Some sid \<and> sid \<in> set (map Service_ID (services d))
               then a\<lparr>NginxConfigFile_ServiceID := None\<rparr> else a)
         (nginx_config_files d)
   \<and> nginx_config_files (delete_file d fid) =
     map (\<lambda>a. case NginxConfigFile_ServiceID a of
                 None \<Rightarrow> a
               | Some i \<Rightarrow>
                   if fid \<in> set (map File_ID (files d))
                      \<and> i \<in> set (map Service_ID (filter (\<lambda>s. Service_FileID s = Some fid) (services d)))
                   then a\<lparr>NginxConfigFile_ServiceID := None\<rparr> else a)
         (nginx_config_files d)"
proof -
  have one: "nginx_config_files (delete_service d sid) =
     map (\<lambda>a. if NginxConfigFile_ServiceID a = Some sid \<and> sid \<in> set (map Service_ID (services d))
               then a\<lparr>NginxConfigFile_ServiceID := None\<rparr> else a)
         (nginx_config_files d)"
    unfolding delete_service_def delete_services_where_nginx_config_files
    by (rule map_cong) (auto split: option.splits)
  have two: "nginx_config_files (delete_file d fid) =
     map (\<lambda>a. case NginxConfigFile_ServiceID a of
                 None \<Rightarrow> a
               | Some i \<Rightarrow>
                   if fid \<in> set (map File_ID (files d))
                      \<and> i \<in> set (map Service_ID (filter (\<lambda>s. Service_FileID s = Some fid) (services d)))
                   then a\<lparr>NginxConfigFile_ServiceID := None\<rparr> else a)
         (nginx_config_files d)"
  proof (cases "fid \<in> set (map File_ID (files d))")
    case True
    then show ?thesis
      by (auto simp: delete_file_def on_delete_file_def services_file_id_on_delete_def
            delete_services_where_nginx_config_files split: option.splits)
  next
    case False
    then show ?thesis
      by (auto simp: delete_file_def split: option.splits intro!: map_idI [symmetric])
  qed
  from one two show ?thesis by simp
qed

theorem deleting_service_disowns_artifacts_witness:
  "nginx_config_files (delete_service ex_db 1) = [ex_artifact\<lparr>NginxConfigFile_ServiceID := None\<rparr>]
   \<and> services (delete_service ex_db 1) = []
   \<and> nginx_config_files (delete_file ex_db 1) = [ex_artifact\<lparr>NginxConfigFile_ServiceID := None\<rparr>]"
proof -
  have s: "services (delete_service ex_db 1) = []"
    by (simp add: delete_service_def delete_services_where_def ex_db_def ex_service_def)
  from deleting_service_disowns_artifacts [of ex_db 1 1] s
  show ?thesis by (simp add: ex_db_def ex_file_def ex_service_def ex_artifact_def)
qed

end
